theory Spec2Isabelle
  imports Main "HOL-Library.Sublist"
begin

section \<open>Message content and text extraction\<close>

text \<open>
  A message content is a plain string or a list of blocks. A block is a dict, a bare
  string or some other object. A dict block is given by its string-valued items, looked
  up with \<open>map_of\<close>; the only key the code reads is \<open>''text''\<close>, whose value is a string.
  Python strings are modelled as lists of characters: \<open>startswith\<close>, slicing and
  \<open>len\<close> are the list operations.
\<close>

datatype block = DictBlock "(string \<times> string) list" | StrBlock string | OtherBlock

datatype content = Str string | Blocks "block list"

text \<open>The loop of \<open>_extract_content\<close> that fills \<open>text_parts\<close> (agent.py, lines 413-418).\<close>

fun text_parts :: "block list \<Rightarrow> string list" where
  "text_parts [] = []"
| "text_parts (DictBlock kvs # rest) =
     (case map_of kvs ''text'' of
        Some t \<Rightarrow> t # text_parts rest
      | None \<Rightarrow> text_parts rest)"
| "text_parts (StrBlock s # rest) = s # text_parts rest"
| "text_parts (OtherBlock # rest) = text_parts rest"

text \<open>\<open>_extract_content\<close> (agent.py, lines 403-420).\<close>

fun extract_content :: "content \<Rightarrow> string" where
  "extract_content (Blocks blocks) = concat (text_parts blocks)"
| "extract_content (Str s) = s"

text \<open>
  The text a block contributes, written from the description of the extraction: the
  \<open>''text''\<close> field of a dict block that has one, a bare string itself, nothing otherwise.
\<close>

fun spec_block_text :: "block \<Rightarrow> string option" where
  "spec_block_text (DictBlock kvs) = map_of kvs ''text''"
| "spec_block_text (StrBlock s) = Some s"
| "spec_block_text OtherBlock = None"

section \<open>Messages, stream items and events\<close>

text \<open>
  What the code reads of a message object: the name of its class
  (\<open>type(m).__name__\<close>), its \<open>type\<close> attribute when it has one, and its \<open>content\<close>
  attribute (\<open>None\<close> when the attribute is missing or holds \<open>None\<close>).
\<close>

record message =
  class_name :: string
  msg_type :: "string option"
  msg_content :: "content option"

text \<open>
  An item of the engine's stream, by the shape the loop of \<open>search_streaming\<close> tests:
  a non-empty tuple (only its first component is read), the empty tuple, a dict (only
  its \<open>messages\<close> entry is read, \<open>None\<close> when the key is missing), anything else.
\<close>

datatype stream_item =
    TupleItem message
  | EmptyTuple
  | DictItem "message list option"
  | OtherItem

datatype event =
    Meta string "string option"
  | Delta string
  | Final string string "string option"

text \<open>
  Lines 301-308: the message chunk the loop takes from an item, \<open>None\<close> where the loop
  continues with the next item. A non-empty tuple never reaches
  \<open>_messages_from_stream_item\<close>, so only its dict and fall-through branches are left.
\<close>

fun message_chunk_of :: "stream_item \<Rightarrow> message option" where
  "message_chunk_of (TupleItem m) = Some m"
| "message_chunk_of EmptyTuple = None"
| "message_chunk_of (DictItem None) = None"
| "message_chunk_of (DictItem (Some messages)) =
     (if messages = [] then None else Some (last messages))"
| "message_chunk_of OtherItem = None"

text \<open>\<open>_extract_message_text\<close> (lines 280-284).\<close>

definition extract_message_text :: "message \<Rightarrow> string option" where
  "extract_message_text m =
     (case msg_content m of None \<Rightarrow> None | Some c \<Rightarrow> Some (extract_content c))"

text \<open>\<open>text.startswith(p)\<close>.\<close>

definition startswith :: "string \<Rightarrow> string \<Rightarrow> bool" where
  "startswith text p = (take (length p) text = p)"

text \<open>
  Lines 301-318 of the loop: the text of an item that carries an assistant message
  with a content, \<open>None\<close> where the loop continues with the next item before it looks
  at any text.
\<close>

definition chunk_text :: "stream_item \<Rightarrow> string option" where
  "chunk_text item =
     (case message_chunk_of item of
        None \<Rightarrow> None
      | Some message_chunk \<Rightarrow>
          if class_name message_chunk \<noteq> ''AIMessage'' \<and>
             class_name message_chunk \<noteq> ''AIMessageChunk''
          then None
          else extract_message_text message_chunk)"

text \<open>
  The body of the loop (lines 299-328): the events it yields for one item and the new
  value of \<open>last_emitted\<close>.
\<close>

definition loop_body :: "string \<Rightarrow> stream_item \<Rightarrow> event list \<times> string" where
  "loop_body last_emitted item =
     (case chunk_text item of
        None \<Rightarrow> ([], last_emitted)
      | Some text \<Rightarrow>
          if text = [] then ([], last_emitted)
          else
            let delta = (if startswith text last_emitted
                         then drop (length last_emitted) text
                         else text)
            in if delta \<noteq> [] then ([Delta delta], text)
               else ([], last_emitted))"

fun for_loop :: "string \<Rightarrow> stream_item list \<Rightarrow> event list \<times> string" where
  "for_loop last_emitted [] = ([], last_emitted)"
| "for_loop last_emitted (item # rest) =
     (case loop_body last_emitted item of
        (yielded, last_emitted') \<Rightarrow>
          (case for_loop last_emitted' rest of
             (later, final_text) \<Rightarrow> (yielded @ later, final_text)))"

section \<open>The engine and \<open>search_streaming\<close>\<close>

text \<open>
  Failures are exceptions deriving from \<open>Exception\<close>: a \<open>TypeError\<close>, or any other,
  each with its message.

  The engine is a parameter, and it has a state (its checkpoints), of any type \<open>'s\<close>. Its
  \<open>stream\<close> call, with and without \<open>stream_mode="messages"\<close>, is made in a state and
  returns an exception or an iterator. An iterator yields finitely many items and then
  ends or raises; \<open>end_state\<close> is the state the engine is in by then. \<open>get_state(config)\<close>
  reads the state the engine is in when it is called, and reports a checkpoint id or
  raises.
\<close>

datatype exn = TypeError string | OtherError string


record 's engine_stream =
  items :: "stream_item list"
  failure :: "exn option"
  end_state :: 's

record config =
  cfg_thread_id :: string
  cfg_checkpoint_id :: "string option"

record 's agent =
  stream_messages :: "'s \<Rightarrow> string \<Rightarrow> config \<Rightarrow> exn + 's engine_stream"
  stream_default :: "'s \<Rightarrow> string \<Rightarrow> config \<Rightarrow> exn + 's engine_stream"
  get_state_checkpoint_id :: "'s \<Rightarrow> config \<Rightarrow> exn + string option"

text \<open>
  What a consumer of the generator sees: the events yielded, and the exception that
  leaves the generator after them, if any; and the state the engine is left in.
\<close>

record 's streamed =
  events :: "event list"
  raised :: "exn option"
  engine_after :: 's

text \<open>Lines 252-259: the thread id used and the config built from the arguments.\<close>

definition resolve_thread_id :: "string option \<Rightarrow> string \<Rightarrow> string" where
  "resolve_thread_id tid uuid4 = (case tid of None \<Rightarrow> uuid4 | Some t \<Rightarrow> t)"

definition build_config :: "string option \<Rightarrow> string option \<Rightarrow> string \<Rightarrow> config" where
  "build_config tid message_id uuid4 =
     \<lparr>cfg_thread_id = resolve_thread_id tid uuid4, cfg_checkpoint_id = message_id\<rparr>"

text \<open>
  Lines 286-297: the stream is opened in the engine state \<open>st\<close>, and opened again
  without a mode after a \<open>TypeError\<close>. A call that raises leaves the state as it is.
\<close>

definition open_stream ::
  "'s agent \<Rightarrow> 's \<Rightarrow> string \<Rightarrow> config \<Rightarrow> exn + 's engine_stream" where
  "open_stream ag st query cfg =
     (case stream_messages ag st query cfg of
        Inl (TypeError msg) \<Rightarrow> stream_default ag st query cfg
      | Inl (OtherError msg) \<Rightarrow> Inl (OtherError msg)
      | Inr stream_iter \<Rightarrow> Inr stream_iter)"

text \<open>
  \<open>search_streaming\<close> (lines 231-338). \<open>got\<close> is the outcome of \<open>get_search_agent()\<close>
  at line 250, which runs before the first \<open>yield\<close>: the agent, or the exception raised
  while the model or the agent is built; in that case the generator yields nothing.
  \<open>st\<close> is the state of the engine when the generator starts, and \<open>uuid4\<close> the value
  \<open>str(uuid.uuid4())\<close> would take. The meta event is yielded before the engine is asked
  for anything; \<open>get_state\<close> is called in the state the consumed stream has left.
\<close>

definition search_streaming ::
  "exn + 's agent \<Rightarrow> 's \<Rightarrow> string \<Rightarrow> string option \<Rightarrow> string option \<Rightarrow> string \<Rightarrow>
   's streamed" where
  "search_streaming got st query tid message_id uuid4 =
     (case got of
        Inl exc \<Rightarrow> \<lparr>events = [], raised = Some exc, engine_after = st\<rparr>
      | Inr ag \<Rightarrow>
          let thread_id' = resolve_thread_id tid uuid4;
              cfg = build_config tid message_id uuid4;
              meta = Meta thread_id' message_id
          in case open_stream ag st query cfg of
               Inl exc \<Rightarrow> \<lparr>events = [meta], raised = Some exc, engine_after = st\<rparr>
             | Inr stream_iter \<Rightarrow>
                 (case for_loop [] (items stream_iter) of
                    (deltas, last_emitted) \<Rightarrow>
                      (case failure stream_iter of
                         Some exc \<Rightarrow>
                           \<lparr>events = meta # deltas, raised = Some exc,
                            engine_after = end_state stream_iter\<rparr>
                       | None \<Rightarrow>
                           (case get_state_checkpoint_id ag (end_state stream_iter) cfg of
                              Inl exc \<Rightarrow>
                                \<lparr>events = meta # deltas, raised = Some exc,
                                 engine_after = end_state stream_iter\<rparr>
                            | Inr checkpoint_id \<Rightarrow>
                                \<lparr>events = meta # deltas @
                                   [Final last_emitted thread_id' checkpoint_id],
                                 raised = None,
                                 engine_after = end_state stream_iter\<rparr>))))"

section \<open>Reading a stream of events\<close>

text \<open>The content fields of the delta events of a stream, in order.\<close>

fun delta_contents :: "event list \<Rightarrow> string list" where
  "delta_contents [] = []"
| "delta_contents (Delta c # rest) = c # delta_contents rest"
| "delta_contents (Meta t m # rest) = delta_contents rest"
| "delta_contents (Final r t m # rest) = delta_contents rest"

text \<open>The response fields of the final events of a stream.\<close>

fun final_responses :: "event list \<Rightarrow> string list" where
  "final_responses [] = []"
| "final_responses (Final r t m # rest) = r # final_responses rest"
| "final_responses (Meta t m # rest) = final_responses rest"
| "final_responses (Delta c # rest) = final_responses rest"

text \<open>The assistant texts the loop reads from the items of a stream.\<close>

definition assistant_texts :: "stream_item list \<Rightarrow> string list" where
  "assistant_texts its = List.map_filter chunk_text its"

text \<open>
  The delta algorithm as it is described: \<open>last_emitted\<close> is the text of the last
  chunk that emitted a delta; the delta of a new text is what remains of it after
  \<open>last_emitted\<close> when it starts with it, and the whole text otherwise; a chunk whose
  delta is empty emits nothing.
\<close>

fun spec_remaining_suffix :: "string \<Rightarrow> string \<Rightarrow> string option" where
  "spec_remaining_suffix [] text = Some text"
| "spec_remaining_suffix (c # cs) [] = None"
| "spec_remaining_suffix (c # cs) (d # ds) = (if c = d then spec_remaining_suffix cs ds else None)"

definition spec_delta :: "string \<Rightarrow> string \<Rightarrow> string" where
  "spec_delta last_emitted text =
     (case spec_remaining_suffix last_emitted text of Some rest \<Rightarrow> rest | None \<Rightarrow> text)"

fun spec_deltas :: "string \<Rightarrow> string list \<Rightarrow> string list" where
  "spec_deltas last_emitted [] = []"
| "spec_deltas last_emitted (text # rest) =
     (if spec_delta last_emitted text = [] then spec_deltas last_emitted rest
      else spec_delta last_emitted text # spec_deltas text rest)"

section \<open>The streaming endpoint\<close>





section \<open>The stores\<close>

text \<open>
  A row of the table \<open>thread_metadata\<close>. The title is declared \<open>str\<close>; a table model is
  not validated when it is constructed and \<open>get_thread_list\<close> stores \<open>msg.content\<close> as
  it is, so a title is a content value (\<open>rename_thread\<close> always stores a plain string).
  Times are natural numbers.
\<close>

record ThreadMetadata =
  thread_id :: string
  title :: content
  created_at :: nat
  updated_at :: nat

text \<open>
  The tables \<open>checkpoints\<close> and \<open>writes\<close> of the checkpointer, and the metadata table,
  each a list of rows. A checkpoint row holds the messages of its \<open>channel_values\<close>
  (the empty list when it has none). The rows of \<open>checkpoints\<close> stand in the order of
  their checkpoint ids, which the checkpointer generates increasing: the newest row of a
  thread is its last row.
\<close>

record checkpoint_row =
  cp_thread_id :: string
  cp_checkpoint_id :: string
  cp_messages :: "message list"

record write_row =
  wr_thread_id :: string
  wr_checkpoint_id :: string

record store =
  checkpoints :: "checkpoint_row list"
  writes :: "write_row list"
  thread_metadata :: "ThreadMetadata list"

text \<open>
  \<open>checkpointer.get_tuple\<close> for a config that names a thread only: the newest checkpoint
  of the thread, \<open>None\<close> when it has none.
\<close>

definition get_tuple :: "store \<Rightarrow> string \<Rightarrow> checkpoint_row option" where
  "get_tuple st tid =
     (case filter (\<lambda>r. cp_thread_id r = tid) (checkpoints st) of
        [] \<Rightarrow> None
      | r # rs \<Rightarrow> Some (last (r # rs)))"

text \<open>\<open>SELECT COUNT(*) FROM checkpoints WHERE thread_id = ?\<close>.\<close>

definition count_checkpoints :: "store \<Rightarrow> string \<Rightarrow> nat" where
  "count_checkpoints st tid = length (filter (\<lambda>r. cp_thread_id r = tid) (checkpoints st))"

text \<open>\<open>select(ThreadMetadata).where(thread_id == tid)\<close>, then \<open>first()\<close>.\<close>

definition select_first :: "store \<Rightarrow> string \<Rightarrow> ThreadMetadata option" where
  "select_first st tid = find (\<lambda>m. thread_id m = tid) (thread_metadata st)"

section \<open>\<open>get_thread_list\<close>\<close>

text \<open>
  Lines 431-437: the thread ids of all checkpoints, the falsy (empty) one left out. The
  code collects them in a set, whose iteration order is not specified; here they stand
  in the order of their last rows, and nothing proved below depends on the order.
\<close>

definition scan_thread_ids :: "store \<Rightarrow> string list" where
  "scan_thread_ids st = remdups (filter (\<lambda>t. t \<noteq> []) (map cp_thread_id (checkpoints st)))"

text \<open>
  Lines 441-444: the rows whose thread id is among \<open>thread_ids\<close>, as a dict keyed by
  their thread id (a later row replaces an earlier one under the same key).
\<close>

definition metadata_map :: "store \<Rightarrow> string list \<Rightarrow> string \<Rightarrow> ThreadMetadata option" where
  "metadata_map st thread_ids =
     map_of (rev (map (\<lambda>m. (thread_id m, m))
       (filter (\<lambda>m. thread_id m \<in> set thread_ids) (thread_metadata st))))"

text \<open>Lines 462-465: the content of the first message whose type is \<open>human\<close>.\<close>

fun first_human_content :: "message list \<Rightarrow> content option" where
  "first_human_content [] = None"
| "first_human_content (msg # rest) =
     (if msg_type msg = Some ''human'' then msg_content msg
      else first_human_content rest)"

text \<open>Lines 453-465: the value of \<open>title\<close> when the fallback has run.\<close>

definition derive_title :: "store \<Rightarrow> string \<Rightarrow> content option" where
  "derive_title st tid =
     (case get_tuple st tid of
        None \<Rightarrow> None
      | Some state_tuple \<Rightarrow> first_human_content (cp_messages state_tuple))"

text \<open>Python's truth value of a title: \<open>None\<close>, the empty string and the empty list are falsy.\<close>

fun truthy :: "content option \<Rightarrow> bool" where
  "truthy None = False"
| "truthy (Some (Str s)) = (s \<noteq> [])"
| "truthy (Some (Blocks bs)) = (bs \<noteq> [])"

text \<open>
  Lines 446-472: the loop over the thread ids. \<open>clock k\<close> is the value of the \<open>k\<close>-th
  reading of \<open>datetime.now()\<close> in the call; \<open>n\<close> counts the readings made so far.
\<close>

fun thread_list_loop ::
  "(nat \<Rightarrow> nat) \<Rightarrow> nat \<Rightarrow> store \<Rightarrow> (string \<Rightarrow> ThreadMetadata option) \<Rightarrow> string list \<Rightarrow>
   ThreadMetadata list" where
  "thread_list_loop clock n st mm [] = []"
| "thread_list_loop clock n st mm (tid # rest) =
     (case mm tid of
        Some metadata \<Rightarrow> metadata # thread_list_loop clock n st mm rest
      | None \<Rightarrow>
          (case derive_title st tid of
             None \<Rightarrow> thread_list_loop clock n st mm rest
           | Some c \<Rightarrow>
               if truthy (Some c)
               then \<lparr>thread_id = tid, title = c,
                     created_at = clock n, updated_at = clock (Suc n)\<rparr>
                    # thread_list_loop clock (Suc (Suc n)) st mm rest
               else thread_list_loop clock n st mm rest))"

definition get_thread_list :: "(nat \<Rightarrow> nat) \<Rightarrow> store \<Rightarrow> ThreadMetadata list" where
  "get_thread_list clock st =
     thread_list_loop clock 0 st (metadata_map st (scan_thread_ids st)) (scan_thread_ids st)"

section \<open>\<open>rename_thread\<close> and \<open>delete_thread\<close>\<close>

text \<open>
  The database operations inside the \<open>try\<close> blocks of the two functions. A set of them
  is a parameter of the model: the operations that raise in the run considered. An
  operation that raises has no effect. Operations outside any \<open>try\<close> block are taken not
  to raise.
\<close>

datatype db_op =
    SelectCount
  | DeleteCheckpoints
  | DeleteWrites
  | CommitCheckpoints
  | SelectMetadata
  | CommitMetadata

text \<open>
  \<open>rename_thread\<close> (lines 477-514). An existing row gets the new title and a new
  \<open>updated_at\<close>; a new row takes both its times from the default factory. Nothing is
  stored unless the commit succeeds.
\<close>

definition rename_thread ::
  "db_op set \<Rightarrow> (nat \<Rightarrow> nat) \<Rightarrow> store \<Rightarrow> string \<Rightarrow> string \<Rightarrow> store \<times> bool" where
  "rename_thread raising clock st tid new_title =
     (case get_tuple st tid of
        None \<Rightarrow> (st, False)
      | Some state_tuple \<Rightarrow>
          if SelectMetadata \<in> raising then (st, False)
          else
            (case select_first st tid of
               Some existing \<Rightarrow>
                 if CommitMetadata \<in> raising then (st, False)
                 else
                   (st\<lparr>thread_metadata :=
                        map (\<lambda>m. if thread_id m = tid
                                  then m\<lparr>title := Str new_title, updated_at := clock 0\<rparr>
                                  else m)
                          (thread_metadata st)\<rparr>,
                    True)
             | None \<Rightarrow>
                 if CommitMetadata \<in> raising then (st, False)
                 else
                   (st\<lparr>thread_metadata :=
                        thread_metadata st @
                        [\<lparr>thread_id = tid, title = Str new_title,
                          created_at = clock 0, updated_at = clock 1\<rparr>]\<rparr>,
                    True)))"

text \<open>
  \<open>delete_thread\<close> (lines 517-559). The two deletes of the checkpointer's tables are one
  transaction: an exception before its commit is answered by \<open>conn.rollback()\<close>, which
  restores the store; after the commit the rollback has nothing to undo.
\<close>

definition delete_thread :: "db_op set \<Rightarrow> store \<Rightarrow> string \<Rightarrow> store \<times> bool" where
  "delete_thread raising st tid =
     (if SelectCount \<in> raising then (st, False)
      else if count_checkpoints st tid = 0 then (st, False)
      else if DeleteCheckpoints \<in> raising then (st, False)
      else if DeleteWrites \<in> raising then (st, False)
      else if CommitCheckpoints \<in> raising then (st, False)
      else
        let committed =
              st\<lparr>checkpoints := filter (\<lambda>r. cp_thread_id r \<noteq> tid) (checkpoints st),
                 writes := filter (\<lambda>w. wr_thread_id w \<noteq> tid) (writes st)\<rparr>
        in if SelectMetadata \<in> raising then (committed, False)
           else
             (case select_first committed tid of
                None \<Rightarrow> (committed, True)
              | Some metadata \<Rightarrow>
                  if CommitMetadata \<in> raising then (committed, False)
                  else
                    (committed\<lparr>thread_metadata :=
                       filter (\<lambda>m. thread_id m \<noteq> tid) (thread_metadata committed)\<rparr>,
                     True)))"

section \<open>Example runs\<close>

text \<open>An assistant chunk, a tool message and a human message with a plain text.\<close>

definition ai_chunk :: "string \<Rightarrow> message" where
  "ai_chunk text =
     \<lparr>class_name = ''AIMessageChunk'', msg_type = Some ''AIMessageChunk'',
      msg_content = Some (Str text)\<rparr>"

definition tool_message :: "string \<Rightarrow> message" where
  "tool_message text =
     \<lparr>class_name = ''ToolMessage'', msg_type = Some ''tool'', msg_content = Some (Str text)\<rparr>"

definition human_message :: "string \<Rightarrow> message" where
  "human_message text =
     \<lparr>class_name = ''HumanMessage'', msg_type = Some ''human'', msg_content = Some (Str text)\<rparr>"

definition ai_message :: "string \<Rightarrow> message" where
  "ai_message text =
     \<lparr>class_name = ''AIMessage'', msg_type = Some ''ai'', msg_content = Some (Str text)\<rparr>"

text \<open>
  An engine whose state is the id of its newest checkpoint. It answers every call with
  the given stream, and \<open>get_state\<close> reports the id its state holds. The example runs
  start in the state \<open>cp-2\<close>, and every example stream leaves the state \<open>cp-3\<close>.
\<close>

definition scripted_agent :: "string engine_stream \<Rightarrow> string agent" where
  "scripted_agent stream_iter =
     \<lparr>stream_messages = (\<lambda>st query cfg. Inr stream_iter),
      stream_default = (\<lambda>st query cfg. Inr stream_iter),
      get_state_checkpoint_id = (\<lambda>st cfg. Inr (Some st))\<rparr>"

text \<open>A cumulative stream, with a tool message and a repeated chunk in it.\<close>

definition cumulative_stream :: "string engine_stream" where
  "cumulative_stream =
     \<lparr>items = [TupleItem (ai_chunk ''He''), TupleItem (tool_message ''found''),
               TupleItem (ai_chunk ''Hello''), TupleItem (ai_chunk ''Hello'')],
      failure = None, end_state = ''cp-3''\<rparr>"

text \<open>
  A token-level stream, as \<open>stream_mode="messages"\<close> yields it: each chunk holds the
  next piece of the answer \<open>Hello there\<close>.
\<close>

definition token_stream :: "string engine_stream" where
  "token_stream =
     \<lparr>items = [TupleItem (ai_chunk ''Hello''), TupleItem (ai_chunk '' ''),
               TupleItem (ai_chunk ''there'')],
      failure = None, end_state = ''cp-3''\<rparr>"

text \<open>A stream that raises after its first chunk.\<close>

definition failing_stream :: "string engine_stream" where
  "failing_stream =
     \<lparr>items = [TupleItem (ai_chunk ''Hel'')], failure = Some (OtherError ''engine down''),
      end_state = ''cp-3''\<rparr>"

text \<open>
  A store with three threads: \<open>t1\<close> has two checkpoints, a write and a metadata row;
  \<open>t2\<close> has one checkpoint without any human message; \<open>t3\<close> has one checkpoint with
  a human message and no metadata row.
\<close>

definition example_store :: store where
  "example_store =
     \<lparr>checkpoints =
        [\<lparr>cp_thread_id = ''t1'', cp_checkpoint_id = ''c1'',
          cp_messages = [human_message ''hi'']\<rparr>,
         \<lparr>cp_thread_id = ''t2'', cp_checkpoint_id = ''c2'',
          cp_messages = [ai_message ''only the assistant'']\<rparr>,
         \<lparr>cp_thread_id = ''t1'', cp_checkpoint_id = ''c3'',
          cp_messages = [human_message ''hi'', ai_message ''hello'']\<rparr>,
         \<lparr>cp_thread_id = ''t3'', cp_checkpoint_id = ''c4'',
          cp_messages = [human_message ''third'']\<rparr>],
      writes =
        [\<lparr>wr_thread_id = ''t1'', wr_checkpoint_id = ''c1''\<rparr>,
         \<lparr>wr_thread_id = ''t2'', wr_checkpoint_id = ''c2''\<rparr>],
      thread_metadata =
        [\<lparr>thread_id = ''t1'', title = Str ''First'', created_at = 5, updated_at = 6\<rparr>]\<rparr>"

text \<open>A clock whose \<open>k\<close>-th reading is \<open>100 + k\<close>.\<close>

definition example_clock :: "nat \<Rightarrow> nat" where
  "example_clock k = 100 + k"

section \<open>Facts about strings and blocks\<close>

lemma startswith_prefix: "startswith text p = prefix p text"
  unfolding startswith_def prefix_def
  by (metis append_eq_conv_conj append_take_drop_id)

lemma text_parts_map_filter: "text_parts bs = List.map_filter spec_block_text bs"
  by (induction bs rule: text_parts.induct) (auto split: option.splits)

section \<open>Facts about the delta loop\<close>

lemma spec_remaining_suffix_Some: "spec_remaining_suffix p t = Some r \<longleftrightarrow> t = p @ r"
  by (induction p t rule: spec_remaining_suffix.induct) auto

lemma spec_remaining_suffix_None: "spec_remaining_suffix p t = None \<longleftrightarrow> \<not> prefix p t"
  by (induction p t rule: spec_remaining_suffix.induct) auto

lemma spec_delta_code: "spec_delta L t = (if startswith t L then drop (length L) t else t)"
  unfolding spec_delta_def startswith_prefix
  by (auto simp: spec_remaining_suffix_Some spec_remaining_suffix_None prefix_def split: option.splits)

lemma loop_body_spec:
  "loop_body L item =
     (case chunk_text item of None \<Rightarrow> ([], L)
      | Some t \<Rightarrow> if spec_delta L t = [] then ([], L) else ([Delta (spec_delta L t)], t))"
  by (auto simp: loop_body_def spec_delta_code Let_def split: option.splits)

lemma for_loop_spec:
  "for_loop L its = (evs, L') \<Longrightarrow> evs = map Delta (spec_deltas L (assistant_texts its))"
proof (induction its arbitrary: L evs L')
  case Nil
  then show ?case by (simp add: assistant_texts_def)
next
  case (Cons item its)
  obtain ys L1 where body: "loop_body L item = (ys, L1)" by (cases "loop_body L item")
  obtain zs L2 where rest: "for_loop L1 its = (zs, L2)" by (cases "for_loop L1 its")
  from Cons.prems body rest have evs: "evs = ys @ zs" by simp
  from Cons.IH [OF rest] have zs: "zs = map Delta (spec_deltas L1 (assistant_texts its))" .
  show ?case
  proof (cases "chunk_text item")
    case None
    with body have "ys = []" "L1 = L" by (auto simp: loop_body_spec)
    with evs zs None show ?thesis by (simp add: assistant_texts_def)
  next
    case (Some t)
    show ?thesis
    proof (cases "spec_delta L t = []")
      case True
      with body Some have "ys = []" "L1 = L" by (auto simp: loop_body_spec)
      with evs zs Some True show ?thesis by (simp add: assistant_texts_def)
    next
      case False
      with body Some have "ys = [Delta (spec_delta L t)]" "L1 = t" by (auto simp: loop_body_spec)
      with evs zs Some False show ?thesis by (simp add: assistant_texts_def)
    qed
  qed
qed

lemma delta_contents_map [simp]: "delta_contents (map Delta ds) = ds"
  by (induction ds) auto

lemma delta_contents_append [simp]: "delta_contents (xs @ ys) = delta_contents xs @ delta_contents ys"
  by (induction xs rule: delta_contents.induct) auto

lemma final_responses_map [simp]: "final_responses (map Delta ds) = []"
  by (induction ds) auto

lemma final_responses_append [simp]:
  "final_responses (xs @ ys) = final_responses xs @ final_responses ys"
  by (induction xs rule: final_responses.induct) auto

lemma for_loop_suffix:
  "for_loop L its = (evs, L') \<Longrightarrow> suffix L acc \<Longrightarrow>
   suffix L' (acc @ concat (delta_contents evs))"
proof (induction its arbitrary: L evs L' acc)
  case Nil
  then show ?case by simp
next
  case (Cons item its)
  obtain ys L1 where body: "loop_body L item = (ys, L1)" by (cases "loop_body L item")
  obtain zs L2 where rest: "for_loop L1 its = (zs, L2)" by (cases "for_loop L1 its")
  from Cons.prems(1) body rest have evs: "evs = ys @ zs" and L2: "L' = L2" by simp_all
  have step: "suffix L1 (acc @ concat (delta_contents ys))"
  proof (cases "chunk_text item")
    case None
    with body Cons.prems(2) show ?thesis by (simp add: loop_body_spec)
  next
    case (Some t)
    show ?thesis
    proof (cases "spec_delta L t = []")
      case True
      with body Some Cons.prems(2) show ?thesis by (simp add: loop_body_spec)
    next
      case False
      with body Some have ys: "ys = [Delta (spec_delta L t)]" and L1: "L1 = t"
        by (auto simp: loop_body_spec)
      show ?thesis
      proof (cases "prefix L t")
        case True
        then obtain r where t: "t = L @ r" by (auto simp: prefix_def)
        then have "spec_delta L t = r" by (simp add: spec_delta_def spec_remaining_suffix_Some [THEN iffD2])
        moreover from Cons.prems(2) obtain p where "acc = p @ L" by (auto simp: suffix_def)
        ultimately show ?thesis using ys L1 t by (simp add: suffix_def)
      next
        case False
        then have "spec_delta L t = t" by (simp add: spec_delta_def spec_remaining_suffix_None [THEN iffD2])
        then show ?thesis using ys L1 by (simp add: suffix_def)
      qed
    qed
  qed
  from Cons.IH [OF rest step] show ?case using evs L2 by simp
qed

lemma for_loop_cumulative:
  "for_loop L its = (evs, L') \<Longrightarrow>
   sorted_wrt prefix (L # filter (\<lambda>t. t \<noteq> []) (assistant_texts its)) \<Longrightarrow>
   L @ concat (delta_contents evs) = L'"
proof (induction its arbitrary: L evs L')
  case Nil
  then show ?case by simp
next
  case (Cons item its)
  obtain ys L1 where body: "loop_body L item = (ys, L1)" by (cases "loop_body L item")
  obtain zs L2 where rest: "for_loop L1 its = (zs, L2)" by (cases "for_loop L1 its")
  from Cons.prems(1) body rest have evs: "evs = ys @ zs" and L2: "L' = L2" by simp_all
  show ?case
  proof (cases "chunk_text item")
    case None
    with body have "ys = []" "L1 = L" by (auto simp: loop_body_spec)
    moreover from None Cons.prems(2)
    have "sorted_wrt prefix (L # filter (\<lambda>t. t \<noteq> []) (assistant_texts its))"
      by (simp add: assistant_texts_def)
    ultimately show ?thesis using Cons.IH [of L zs L2] rest evs L2 by simp
  next
    case (Some t)
    show ?thesis
    proof (cases "t = []")
      case True
      then have "spec_delta L t = []"
        by (cases L) (simp_all add: spec_delta_def)
      with body Some have "ys = []" "L1 = L" by (auto simp: loop_body_spec)
      moreover from Some True Cons.prems(2)
      have "sorted_wrt prefix (L # filter (\<lambda>t. t \<noteq> []) (assistant_texts its))"
        by (simp add: assistant_texts_def)
      ultimately show ?thesis using Cons.IH [of L zs L2] rest evs L2 by simp
    next
      case False
      with Some Cons.prems(2)
      have pre: "prefix L t"
        and srt: "sorted_wrt prefix (t # filter (\<lambda>t. t \<noteq> []) (assistant_texts its))"
        and all: "\<forall>x \<in> set (filter (\<lambda>t. t \<noteq> []) (assistant_texts its)). prefix L x"
        by (simp_all add: assistant_texts_def)
      from pre obtain r where t: "t = L @ r" by (auto simp: prefix_def)
      then have d: "spec_delta L t = r"
        by (simp add: spec_delta_def spec_remaining_suffix_Some [THEN iffD2])
      show ?thesis
      proof (cases "r = []")
        case True
        with d body Some have "ys = []" "L1 = L" by (auto simp: loop_body_spec)
        moreover from srt t True
        have "sorted_wrt prefix (L # filter (\<lambda>t. t \<noteq> []) (assistant_texts its))" by simp
        ultimately show ?thesis using Cons.IH [of L zs L2] rest evs L2 by simp
      next
        case False
        with d body Some have "ys = [Delta r]" "L1 = t" by (auto simp: loop_body_spec)
        then show ?thesis using Cons.IH [of t zs L2] rest evs L2 srt t by simp
      qed
    qed
  qed
qed

lemma search_streaming_no_agent:
  "search_streaming (Inl exc) st query tid mid u =
     \<lparr>events = [], raised = Some exc, engine_after = st\<rparr>"
  by (simp add: search_streaming_def)

lemma search_streaming_done:
  assumes "open_stream ag st query (build_config tid mid u) = Inr s"
    and "raised (search_streaming (Inr ag) st query tid mid u) = None"
  shows "\<exists>cid. failure s = None \<and>
           get_state_checkpoint_id ag (end_state s) (build_config tid mid u) = Inr cid \<and>
           events (search_streaming (Inr ag) st query tid mid u) =
             Meta (resolve_thread_id tid u) mid # fst (for_loop [] (items s)) @
             [Final (snd (for_loop [] (items s))) (resolve_thread_id tid u) cid]"
  using assms
  by (auto simp: search_streaming_def Let_def split: sum.splits option.splits prod.splits)

lemma search_streaming_opened:
  assumes "open_stream ag st query (build_config tid mid u) = Inr s"
  shows "delta_contents (events (search_streaming (Inr ag) st query tid mid u)) =
           delta_contents (fst (for_loop [] (items s)))"
  using assms
  by (auto simp: search_streaming_def Let_def split: sum.splits option.splits prod.splits)

lemma for_loop_fst_spec:
  "fst (for_loop L its) = map Delta (spec_deltas L (assistant_texts its))"
  using for_loop_spec [of L its "fst (for_loop L its)" "snd (for_loop L its)"] by simp

lemma reconstruction_when_cumulative:
  assumes opened: "open_stream ag st query (build_config tid mid u) = Inr s"
    and ended: "raised (search_streaming (Inr ag) st query tid mid u) = None"
  shows "\<exists>resp.
           final_responses (events (search_streaming (Inr ag) st query tid mid u)) = [resp] \<and>
           suffix resp
             (concat (delta_contents (events (search_streaming (Inr ag) st query tid mid u)))) \<and>
           (sorted_wrt prefix (filter (\<lambda>t. t \<noteq> []) (assistant_texts (items s))) \<longrightarrow>
              concat (delta_contents (events (search_streaming (Inr ag) st query tid mid u)))
                = resp)"
proof -
  obtain evs L' where loop: "for_loop [] (items s) = (evs, L')"
    by (cases "for_loop [] (items s)")
  from search_streaming_done [OF opened ended] loop obtain cid where
    ev: "events (search_streaming (Inr ag) st query tid mid u) =
           Meta (resolve_thread_id tid u) mid # evs @ [Final L' (resolve_thread_id tid u) cid]"
    by auto
  have evs: "evs = map Delta (delta_contents evs)"
    using for_loop_spec [OF loop] by simp
  have fin: "final_responses (events (search_streaming (Inr ag) st query tid mid u)) = [L']"
    unfolding ev by (subst evs) simp
  have del: "delta_contents (events (search_streaming (Inr ag) st query tid mid u)) =
      delta_contents evs"
    unfolding ev by simp
  have suf: "suffix L' (concat (delta_contents evs))"
    using for_loop_suffix [OF loop, of "[]"] by simp
  have cum: "concat (delta_contents evs) = L'"
    if "sorted_wrt prefix (filter (\<lambda>t. t \<noteq> []) (assistant_texts (items s)))"
    using for_loop_cumulative [OF loop] that by simp
  from fin del suf cum show ?thesis by simp
qed

section \<open>Evaluating the example runs\<close>

lemma run_cumulative:
  "search_streaming (Inr (scripted_agent cumulative_stream)) ''cp-2'' ''q'' None None ''u1'' =
     \<lparr>events = [Meta ''u1'' None, Delta ''He'', Delta ''llo'', Final ''Hello'' ''u1'' (Some ''cp-3'')],
      raised = None, engine_after = ''cp-3''\<rparr>"
  by (simp add: search_streaming_def open_stream_def scripted_agent_def cumulative_stream_def
      build_config_def resolve_thread_id_def Let_def loop_body_def chunk_text_def
      extract_message_text_def startswith_def ai_chunk_def tool_message_def)

lemma run_token:
  "search_streaming (Inr (scripted_agent token_stream)) ''cp-2'' ''q'' None None ''u1'' =
     \<lparr>events = [Meta ''u1'' None, Delta ''Hello'', Delta '' '', Delta ''there'',
                Final ''there'' ''u1'' (Some ''cp-3'')],
      raised = None, engine_after = ''cp-3''\<rparr>"
  by (simp add: search_streaming_def open_stream_def scripted_agent_def token_stream_def
      build_config_def resolve_thread_id_def Let_def loop_body_def chunk_text_def
      extract_message_text_def startswith_def ai_chunk_def)

lemma run_failing:
  "search_streaming (Inr (scripted_agent failing_stream)) ''cp-2'' ''q'' None None ''u1'' =
     \<lparr>events = [Meta ''u1'' None, Delta ''Hel''], raised = Some (OtherError ''engine down''),
      engine_after = ''cp-3''\<rparr>"
  by (simp add: search_streaming_def open_stream_def scripted_agent_def failing_stream_def
      build_config_def resolve_thread_id_def Let_def loop_body_def chunk_text_def
      extract_message_text_def startswith_def ai_chunk_def)

lemma run_time_travel:
  "search_streaming (Inr (scripted_agent cumulative_stream)) ''cp-2'' ''q'' (Some ''t1'')
       (Some ''cp-1'') ''u1'' =
     \<lparr>events = [Meta ''t1'' (Some ''cp-1''), Delta ''He'', Delta ''llo'',
                Final ''Hello'' ''t1'' (Some ''cp-3'')],
      raised = None, engine_after = ''cp-3''\<rparr>"
  by (simp add: search_streaming_def open_stream_def scripted_agent_def cumulative_stream_def
      build_config_def resolve_thread_id_def Let_def loop_body_def chunk_text_def
      extract_message_text_def startswith_def ai_chunk_def tool_message_def)

lemma texts_cumulative:
  "assistant_texts (items cumulative_stream) = [''He'', ''Hello'', ''Hello'']"
  by (simp add: assistant_texts_def cumulative_stream_def chunk_text_def
      extract_message_text_def ai_chunk_def tool_message_def)

lemma texts_token: "assistant_texts (items token_stream) = [''Hello'', '' '', ''there'']"
  by (simp add: assistant_texts_def token_stream_def chunk_text_def
      extract_message_text_def ai_chunk_def)




section \<open>The shape of a stream\<close>

lemma for_loop_only_deltas: "\<exists>ds. fst (for_loop L its) = map Delta ds"
  using for_loop_fst_spec by blast

lemma search_streaming_cases:
  fixes ag :: "'s agent"
  defines "R \<equiv> search_streaming (Inr ag)"
  shows "(\<exists>ds exc. events (R st query tid mid u) = Meta (resolve_thread_id tid u) mid # map Delta ds \<and>
        raised (R st query tid mid u) = Some exc) \<or>
   (\<exists>s ds resp cid. open_stream ag st query (build_config tid mid u) = Inr s \<and>
        get_state_checkpoint_id ag (end_state s) (build_config tid mid u) = Inr cid \<and>
        events (R st query tid mid u) =
          Meta (resolve_thread_id tid u) mid # map Delta ds @
            [Final resp (resolve_thread_id tid u) cid] \<and>
        raised (R st query tid mid u) = None)"
proof (cases "open_stream ag st query (build_config tid mid u)")
  case (Inl exc)
  then have "events (R st query tid mid u) = Meta (resolve_thread_id tid u) mid # map Delta []"
    and "raised (R st query tid mid u) = Some exc"
    by (simp_all add: R_def search_streaming_def Let_def)
  then show ?thesis by blast
next
  case (Inr s)
  obtain evs L' where loop: "for_loop [] (items s) = (evs, L')"
    by (cases "for_loop [] (items s)")
  from for_loop_spec [OF loop] obtain ds where ds: "evs = map Delta ds" by blast
  show ?thesis
  proof (cases "failure s")
    case (Some exc)
    with Inr ds loop
    have "events (R st query tid mid u) = Meta (resolve_thread_id tid u) mid # map Delta ds"
      and "raised (R st query tid mid u) = Some exc"
      by (simp_all add: R_def search_streaming_def Let_def)
    then show ?thesis by blast
  next
    case None
    show ?thesis
    proof (cases "get_state_checkpoint_id ag (end_state s) (build_config tid mid u)")
      case (Inl exc)
      with Inr ds loop None
      have "events (R st query tid mid u) = Meta (resolve_thread_id tid u) mid # map Delta ds"
        and "raised (R st query tid mid u) = Some exc"
        by (simp_all add: R_def search_streaming_def Let_def)
      then show ?thesis by blast
    next
      case (Inr cid)
      with \<open>open_stream ag st query (build_config tid mid u) = Inr s\<close> ds loop None
      have "events (R st query tid mid u) =
          Meta (resolve_thread_id tid u) mid # map Delta ds @
            [Final L' (resolve_thread_id tid u) cid]"
        and "raised (R st query tid mid u) = None"
        by (simp_all add: R_def search_streaming_def Let_def)
      with Inr \<open>open_stream ag st query (build_config tid mid u) = Inr s\<close>
      show ?thesis by blast
    qed
  qed
qed



section \<open>Streaming reconstruction\<close>

text \<open>
  C1. The claim is what the docstring of \<open>search_streaming\<close> (a response streamed as
  incremental deltas, closed by a final event with the response) and the buffered
  \<open>search\<close> promise, and the code departs from it. The stream is read in the mode
  \<open>messages\<close>, whose chunks are token-level: each chunk that does not start with the
  text emitted before is emitted whole and replaces \<open>last_emitted\<close>. For the chunks
  \<open>Hello\<close>, a blank and \<open>there\<close> the deltas concatenate to \<open>Hello there\<close>, and the
  response of the final event is \<open>there\<close>.
\<close>

theorem token_stream_loses_response:
  "assistant_texts (items token_stream) = [''Hello'', '' '', ''there''] \<and>
   concat (delta_contents (events
     (search_streaming (Inr (scripted_agent token_stream)) ''cp-2'' ''q'' None None ''u1'')))
     = ''Hello there'' \<and>
   final_responses (events
     (search_streaming (Inr (scripted_agent token_stream)) ''cp-2'' ''q'' None None ''u1''))
     = [''there'']"
  by (simp add: run_token texts_token)

section \<open>The delta computation\<close>

text \<open>
  C2. When the engine's stream is opened, the delta events of \<open>search_streaming\<close> are
  those of the described algorithm, started with the empty \<open>last_emitted\<close>, on the
  assistant texts of the stream; without an agent there are no delta events. The delta
  of a text that has \<open>last_emitted\<close> as a prefix is the remaining suffix; the delta of
  any other text is the whole text; a chunk with an empty delta emits nothing
  (\<open>spec_deltas\<close>).
\<close>

theorem delta_computation:
  "(open_stream ag st query (build_config tid mid u) = Inr s \<longrightarrow>
      delta_contents (events (search_streaming (Inr ag) st query tid mid u)) =
        spec_deltas [] (assistant_texts (items s))) \<and>
   delta_contents (events (search_streaming (Inl exc) st query tid mid u)) = [] \<and>
   spec_delta L (L @ r) = r \<and>
   (\<not> prefix L t \<longrightarrow> spec_delta L t = t)"
proof (intro conjI impI)
  assume "open_stream ag st query (build_config tid mid u) = Inr s"
  then show "delta_contents (events (search_streaming (Inr ag) st query tid mid u)) =
        spec_deltas [] (assistant_texts (items s))"
    by (simp add: search_streaming_opened for_loop_fst_spec)
next
  show "delta_contents (events (search_streaming (Inl exc) st query tid mid u)) = []"
    by (simp add: search_streaming_no_agent)
next
  show "spec_delta L (L @ r) = r"
    by (simp add: spec_delta_def spec_remaining_suffix_Some [THEN iffD2])
next
  assume "\<not> prefix L t"
  then show "spec_delta L t = t"
    by (simp add: spec_delta_def spec_remaining_suffix_None [THEN iffD2])
qed

theorem delta_computation_witness:
  "open_stream (scripted_agent cumulative_stream) ''cp-2'' ''q'' (build_config None None ''u1'') =
     Inr cumulative_stream \<and>
   delta_contents (events
     (search_streaming (Inr (scripted_agent cumulative_stream)) ''cp-2'' ''q'' None None ''u1''))
     = [''He'', ''llo''] \<and>
   spec_deltas [] (assistant_texts (items cumulative_stream)) = [''He'', ''llo''] \<and>
   spec_delta ''He'' (''He'' @ ''llo'') = ''llo'' \<and>
   \<not> prefix ''abc'' ''xyz'' \<and> spec_delta ''abc'' ''xyz'' = ''xyz''"
proof -
  have o: "open_stream (scripted_agent cumulative_stream) ''cp-2'' ''q''
      (build_config None None ''u1'') = Inr cumulative_stream"
    by (simp add: open_stream_def scripted_agent_def)
  have n: "\<not> prefix ''abc'' ''xyz''" by simp
  from delta_computation [of "scripted_agent cumulative_stream" "''cp-2''" "''q''" None None
      "''u1''" cumulative_stream "OtherError []" "''He''" "''llo''"]
    delta_computation [of "scripted_agent cumulative_stream" "''cp-2''" "''q''" None None
      "''u1''" cumulative_stream "OtherError []" "''abc''" "''llo''" "''xyz''"] o n
  show ?thesis by (simp add: run_cumulative)
qed

section \<open>Text extraction\<close>

text \<open>
  C7. \<open>_extract_content\<close> returns a plain string unchanged, and for a list of blocks the
  concatenation, in order, of the \<open>text\<close> fields of the dict blocks that have one and of
  the bare strings; every other block contributes nothing.
\<close>

theorem extract_content_text_only:
  "extract_content (Str s) = s \<and>
   extract_content (Blocks bs) = concat (List.map_filter spec_block_text bs)"
  by (simp add: text_parts_map_filter)

theorem extract_content_text_only_witness:
  "extract_content (Str ''plain'') = ''plain'' \<and>
   extract_content (Blocks [DictBlock [(''type'', ''text''), (''text'', ''ab'')], OtherBlock,
      StrBlock ''cd'', DictBlock [(''type'', ''image_url'')], DictBlock [(''text'', ''e'')]])
     = ''abcde''"
  using extract_content_text_only [of "''plain''"
      "[DictBlock [(''type'', ''text''), (''text'', ''ab'')], OtherBlock,
      StrBlock ''cd'', DictBlock [(''type'', ''image_url'')], DictBlock [(''text'', ''e'')]]"]
  by (simp add: List.map_filter_simps)

section \<open>The checkpoint ids of the meta and final events\<close>

text \<open>
  C8. A stream of \<open>search_streaming\<close> has events whenever the agent was obtained, and
  the first event of a stream that has any is the meta event with the thread id in use
  and the message id the caller gave (\<open>None\<close> when the caller gave none), whatever the
  engine holds. When the stream ends normally, the events after it are deltas and then
  the final event, which carries the checkpoint id that \<open>get_state\<close> reports in the
  state the engine is in after the stream has been consumed; when it does not end
  normally, only deltas follow.
\<close>

theorem meta_carries_callers_message_id:
  fixes got :: "exn + 's agent" and st query tid mid u
  defines "R \<equiv> search_streaming got st query tid mid u"
    and "t \<equiv> resolve_thread_id tid u"
  shows "(events R \<noteq> [] \<longrightarrow> hd (events R) = Meta t mid) \<and>
     (\<forall>ag. got = Inr ag \<longrightarrow> events R \<noteq> []) \<and>
     (raised R = None \<longrightarrow>
        (\<exists>ag s ds resp cid. got = Inr ag \<and>
           open_stream ag st query (build_config tid mid u) = Inr s \<and>
           get_state_checkpoint_id ag (end_state s) (build_config tid mid u) = Inr cid \<and>
           tl (events R) = map Delta ds @ [Final resp t cid])) \<and>
     (raised R \<noteq> None \<longrightarrow> (\<exists>ds. tl (events R) = map Delta ds))"
proof (cases got)
  case (Inl exc)
  then show ?thesis
    by (simp add: R_def search_streaming_no_agent)
next
  case (Inr ag)
  from search_streaming_cases [of ag st query tid mid u] show ?thesis
    unfolding R_def t_def Inr
    by (elim disjE exE conjE) auto
qed

theorem meta_carries_callers_message_id_witness:
  "events (search_streaming (Inr (scripted_agent cumulative_stream)) ''cp-2'' ''q'' (Some ''t1'')
         (Some ''cp-1'') ''u1'') \<noteq> [] \<and>
   hd (events (search_streaming (Inr (scripted_agent cumulative_stream)) ''cp-2'' ''q''
         (Some ''t1'') (Some ''cp-1'') ''u1'')) = Meta ''t1'' (Some ''cp-1'') \<and>
   raised (search_streaming (Inr (scripted_agent cumulative_stream)) ''cp-2'' ''q'' (Some ''t1'')
         (Some ''cp-1'') ''u1'') = None \<and>
   open_stream (scripted_agent cumulative_stream) ''cp-2'' ''q''
     (build_config (Some ''t1'') (Some ''cp-1'') ''u1'') = Inr cumulative_stream \<and>
   get_state_checkpoint_id (scripted_agent cumulative_stream) ''cp-2''
     (build_config (Some ''t1'') (Some ''cp-1'') ''u1'') = Inr (Some ''cp-2'') \<and>
   get_state_checkpoint_id (scripted_agent cumulative_stream) (end_state cumulative_stream)
     (build_config (Some ''t1'') (Some ''cp-1'') ''u1'') = Inr (Some ''cp-3'') \<and>
   tl (events (search_streaming (Inr (scripted_agent cumulative_stream)) ''cp-2'' ''q''
         (Some ''t1'') (Some ''cp-1'') ''u1'')) =
     map Delta [''He'', ''llo''] @ [Final ''Hello'' ''t1'' (Some ''cp-3'')] \<and>
   raised (search_streaming (Inr (scripted_agent failing_stream)) ''cp-2'' ''q'' None None ''u1'')
     \<noteq> None \<and>
   tl (events (search_streaming (Inr (scripted_agent failing_stream)) ''cp-2'' ''q'' None None
         ''u1'')) = map Delta [''Hel'']"
proof -
  have o: "open_stream (scripted_agent cumulative_stream) ''cp-2'' ''q''
     (build_config (Some ''t1'') (Some ''cp-1'') ''u1'') = Inr cumulative_stream"
    by (simp add: open_stream_def scripted_agent_def)
  have g: "get_state_checkpoint_id (scripted_agent cumulative_stream) ''cp-2''
     (build_config (Some ''t1'') (Some ''cp-1'') ''u1'') = Inr (Some ''cp-2'')"
    "get_state_checkpoint_id (scripted_agent cumulative_stream) (end_state cumulative_stream)
     (build_config (Some ''t1'') (Some ''cp-1'') ''u1'') = Inr (Some ''cp-3'')"
    by (simp_all add: scripted_agent_def cumulative_stream_def)
  from meta_carries_callers_message_id [of "Inr (scripted_agent cumulative_stream)" "''cp-2''"
      "''q''" "Some ''t1''" "Some ''cp-1''" "''u1''"]
    meta_carries_callers_message_id [of "Inr (scripted_agent failing_stream)" "''cp-2''"
      "''q''" None None "''u1''"]
  show ?thesis
    by (simp add: run_time_travel run_failing o g)
qed

section \<open>Termination of a stream\<close>




section \<open>Facts about the stores\<close>

lemma get_tuple_None_iff: "get_tuple st tid = None \<longleftrightarrow> count_checkpoints st tid = 0"
  by (simp add: get_tuple_def count_checkpoints_def split: list.splits)

lemma select_first_None_iff:
  "select_first st tid = None \<longleftrightarrow> (\<forall>m \<in> set (thread_metadata st). thread_id m \<noteq> tid)"
  by (auto simp: select_first_def find_None_iff)

lemma select_first_SomeD:
  "select_first st tid = Some m \<Longrightarrow> m \<in> set (thread_metadata st) \<and> thread_id m = tid"
  by (auto simp: select_first_def find_Some_iff)

lemma scan_thread_ids_iff:
  "t \<in> set (scan_thread_ids st) \<longleftrightarrow> t \<noteq> [] \<and> count_checkpoints st t \<noteq> 0"
  by (auto simp: scan_thread_ids_def count_checkpoints_def filter_empty_conv)

lemma metadata_map_SomeD:
  "metadata_map st ids k = Some m \<Longrightarrow>
   thread_id m = k \<and> m \<in> set (thread_metadata st) \<and> k \<in> set ids"
  by (auto simp: metadata_map_def dest!: map_of_SomeD)

lemma metadata_map_None_iff:
  "metadata_map st ids k = None \<longleftrightarrow>
   (k \<in> set ids \<longrightarrow> (\<forall>m \<in> set (thread_metadata st). thread_id m \<noteq> k))"
  by (force simp: metadata_map_def map_of_eq_None_iff)

lemma find_map_same_key:
  assumes "\<And>x. P (f x) = P x"
  shows "find P (map f xs) = map_option f (find P xs)"
  using assms by (induction xs) auto

lemma find_snoc:
  "find P (xs @ [x]) = (case find P xs of Some y \<Rightarrow> Some y | None \<Rightarrow> if P x then Some x else None)"
  by (induction xs) auto

lemma filter_shrinks:
  "filter P xs \<noteq> [] \<Longrightarrow> filter (\<lambda>x. \<not> P x) xs \<noteq> xs"
  by (metis filter_False filter_id_conv)

lemma filter_metadata_id:
  "select_first st tid = None \<Longrightarrow>
   filter (\<lambda>m. thread_id m \<noteq> tid) (thread_metadata st) = thread_metadata st"
  by (simp add: select_first_None_iff filter_id_conv)

lemma count_after_filter:
  "checkpoints st' = filter (\<lambda>r. cp_thread_id r \<noteq> tid) (checkpoints st) \<Longrightarrow>
   count_checkpoints st' tid = 0"
  by (simp add: count_checkpoints_def)

section \<open>Facts about the loop of \<open>get_thread_list\<close>\<close>

lemma loop_ids:
  assumes "\<And>k m. mm k = Some m \<Longrightarrow> thread_id m = k"
  shows "e \<in> set (thread_list_loop clock n st mm ids) \<Longrightarrow> thread_id e \<in> set ids"
  using assms
  by (induction ids arbitrary: n) (auto split: option.splits if_splits)

lemma loop_distinct:
  assumes "\<And>k m. mm k = Some m \<Longrightarrow> thread_id m = k"
  shows "distinct ids \<Longrightarrow> distinct (map thread_id (thread_list_loop clock n st mm ids))"
proof (induction ids arbitrary: n)
  case Nil
  then show ?case by simp
next
  case (Cons t ids)
  have fresh: "t \<notin> thread_id ` set (thread_list_loop clock k st mm ids)" for k
    using loop_ids [OF assms, where clock = clock and n = k and st = st and ids = ids]
      Cons.prems by auto
  from Cons show ?case
    using fresh assms by (auto split: option.splits)
qed

lemma loop_stored:
  "t \<in> set ids \<Longrightarrow> mm t = Some m \<Longrightarrow> m \<in> set (thread_list_loop clock n st mm ids)"
  by (induction ids arbitrary: n) (auto split: option.splits)

lemma loop_derived:
  "t \<in> set ids \<Longrightarrow> mm t = None \<Longrightarrow> derive_title st t = Some c \<Longrightarrow> truthy (Some c) \<Longrightarrow>
   \<exists>k. \<lparr>thread_id = t, title = c, created_at = clock k, updated_at = clock (Suc k)\<rparr>
        \<in> set (thread_list_loop clock n st mm ids)"
proof (induction ids arbitrary: n)
  case Nil
  then show ?case by simp
next
  case (Cons a ids)
  show ?case
  proof (cases "a = t")
    case True
    with Cons.prems show ?thesis by auto
  next
    case False
    with Cons.prems have "t \<in> set ids" by simp
    from Cons.IH [OF this Cons.prems(2-4)] show ?thesis
      by (auto split: option.splits)
  qed
qed

lemma loop_omitted:
  assumes "\<And>k m. mm k = Some m \<Longrightarrow> thread_id m = k"
  shows "mm t = None \<Longrightarrow> \<not> truthy (derive_title st t) \<Longrightarrow>
     e \<in> set (thread_list_loop clock n st mm ids) \<Longrightarrow> thread_id e \<noteq> t"
  using assms
  by (induction ids arbitrary: n) (auto split: option.splits if_splits)

lemma get_thread_list_ids:
  "e \<in> set (get_thread_list clock st) \<Longrightarrow> thread_id e \<in> set (scan_thread_ids st)"
  unfolding get_thread_list_def
  by (rule loop_ids [where mm = "metadata_map st (scan_thread_ids st)"])
     (simp_all add: metadata_map_SomeD)

section \<open>Facts about \<open>delete_thread\<close> and \<open>rename_thread\<close>\<close>

lemma delete_thread_absent:
  "count_checkpoints st tid = 0 \<Longrightarrow> delete_thread raising st tid = (st, False)"
  by (simp add: delete_thread_def)

lemma delete_thread_no_faults:
  assumes "count_checkpoints st tid \<noteq> 0"
  shows "delete_thread {} st tid =
     (\<lparr>checkpoints = filter (\<lambda>r. cp_thread_id r \<noteq> tid) (checkpoints st),
       writes = filter (\<lambda>w. wr_thread_id w \<noteq> tid) (writes st),
       thread_metadata = filter (\<lambda>m. thread_id m \<noteq> tid) (thread_metadata st)\<rparr>, True)"
proof (cases "select_first st tid")
  case None
  with assms show ?thesis
    by (simp add: delete_thread_def Let_def select_first_def filter_metadata_id [OF None])
next
  case (Some m)
  with assms show ?thesis
    by (simp add: delete_thread_def Let_def select_first_def)
qed

lemma delete_thread_True:
  assumes "delete_thread raising st tid = (st', True)"
  shows "checkpoints st' = filter (\<lambda>r. cp_thread_id r \<noteq> tid) (checkpoints st) \<and>
     writes st' = filter (\<lambda>w. wr_thread_id w \<noteq> tid) (writes st) \<and>
     thread_metadata st' = filter (\<lambda>m. thread_id m \<noteq> tid) (thread_metadata st)"
proof (cases "select_first st tid")
  case None
  with assms show ?thesis
    by (auto simp: delete_thread_def Let_def select_first_def filter_metadata_id [OF None]
        split: if_splits)
next
  case (Some m)
  with assms show ?thesis
    by (auto simp: delete_thread_def Let_def select_first_def split: if_splits)
qed

lemma rename_thread_absent:
  "count_checkpoints st tid = 0 \<Longrightarrow> rename_thread raising clock st tid new_title = (st, False)"
  by (simp add: rename_thread_def get_tuple_None_iff [THEN iffD2])

lemma rename_thread_no_faults:
  "count_checkpoints st tid \<noteq> 0 \<Longrightarrow> snd (rename_thread {} clock st tid new_title) = True"
  by (auto simp: rename_thread_def get_tuple_None_iff split: option.splits)

lemma rename_thread_True:
  assumes "rename_thread raising clock st tid new_title = (st', True)"
  shows "checkpoints st' = checkpoints st \<and> writes st' = writes st \<and>
     (case select_first st tid of
        None \<Rightarrow>
          thread_metadata st' = thread_metadata st @
            [\<lparr>thread_id = tid, title = Str new_title,
              created_at = clock 0, updated_at = clock 1\<rparr>]
      | Some existing \<Rightarrow>
          thread_metadata st' =
            map (\<lambda>m. if thread_id m = tid
                      then m\<lparr>title := Str new_title, updated_at := clock 0\<rparr> else m)
              (thread_metadata st))"
  using assms
  by (auto simp: rename_thread_def split: option.splits if_splits)

lemma rename_thread_select:
  assumes "rename_thread raising clock st tid new_title = (st', True)"
  shows "select_first st' k =
     (if k = tid
      then (case select_first st tid of
              None \<Rightarrow> Some \<lparr>thread_id = tid, title = Str new_title,
                             created_at = clock 0, updated_at = clock 1\<rparr>
            | Some m \<Rightarrow> Some (m\<lparr>title := Str new_title, updated_at := clock 0\<rparr>))
      else select_first st k)"
proof (cases "select_first st tid")
  case None
  with rename_thread_True [OF assms]
  have "thread_metadata st' = thread_metadata st @
            [\<lparr>thread_id = tid, title = Str new_title,
              created_at = clock 0, updated_at = clock 1\<rparr>]"
    by simp
  with None show ?thesis
    by (auto simp: select_first_def find_snoc split: option.splits)
next
  case (Some m)
  let ?f = "\<lambda>m. if thread_id m = tid
                  then m\<lparr>title := Str new_title, updated_at := clock 0\<rparr> else m"
  from Some rename_thread_True [OF assms]
  have rows: "thread_metadata st' = map ?f (thread_metadata st)"
    by simp
  have "find (\<lambda>m. thread_id m = k) (map ?f (thread_metadata st)) =
        map_option ?f (find (\<lambda>m. thread_id m = k) (thread_metadata st))"
    by (rule find_map_same_key) simp
  with rows have sel: "select_first st' k = map_option ?f (select_first st k)"
    by (simp add: select_first_def)
  show ?thesis
  proof (cases "k = tid")
    case True
    with sel Some select_first_SomeD [OF Some] show ?thesis by simp
  next
    case False
    show ?thesis
    proof (cases "select_first st k")
      case None
      with sel False show ?thesis by simp
    next
      case (Some m')
      with sel False select_first_SomeD [OF Some] show ?thesis by simp
    qed
  qed
qed

section \<open>Evaluating the example store\<close>

lemma example_ids: "scan_thread_ids example_store = [''t2'', ''t1'', ''t3'']"
  by (simp add: scan_thread_ids_def example_store_def)

lemma example_titles:
  "derive_title example_store ''t2'' = None \<and>
   derive_title example_store ''t3'' = Some (Str ''third'')"
  by (simp add: derive_title_def get_tuple_def example_store_def human_message_def ai_message_def)

lemma example_select:
  "select_first example_store ''t1'' =
     Some \<lparr>thread_id = ''t1'', title = Str ''First'', created_at = 5, updated_at = 6\<rparr> \<and>
   select_first example_store ''t2'' = None \<and> select_first example_store ''t3'' = None"
  by (simp add: select_first_def example_store_def)

lemma example_counts:
  "count_checkpoints example_store ''t1'' = 2 \<and> count_checkpoints example_store ''t9'' = 0"
  by (simp add: count_checkpoints_def example_store_def)

lemma example_list:
  "get_thread_list example_clock example_store =
     [\<lparr>thread_id = ''t1'', title = Str ''First'', created_at = 5, updated_at = 6\<rparr>,
      \<lparr>thread_id = ''t3'', title = Str ''third'', created_at = 100, updated_at = 101\<rparr>]"
  by (simp add: get_thread_list_def scan_thread_ids_def metadata_map_def example_store_def
      derive_title_def get_tuple_def human_message_def ai_message_def example_clock_def)

lemma example_delete:
  "delete_thread {} example_store ''t1'' =
     (\<lparr>checkpoints =
         [\<lparr>cp_thread_id = ''t2'', cp_checkpoint_id = ''c2'',
           cp_messages = [ai_message ''only the assistant'']\<rparr>,
          \<lparr>cp_thread_id = ''t3'', cp_checkpoint_id = ''c4'',
           cp_messages = [human_message ''third'']\<rparr>],
       writes = [\<lparr>wr_thread_id = ''t2'', wr_checkpoint_id = ''c2''\<rparr>],
       thread_metadata = []\<rparr>, True)"
  by (simp add: delete_thread_def count_checkpoints_def select_first_def example_store_def)

lemma example_delete_failing:
  "delete_thread {CommitMetadata} example_store ''t1'' =
     (\<lparr>checkpoints =
         [\<lparr>cp_thread_id = ''t2'', cp_checkpoint_id = ''c2'',
           cp_messages = [ai_message ''only the assistant'']\<rparr>,
          \<lparr>cp_thread_id = ''t3'', cp_checkpoint_id = ''c4'',
           cp_messages = [human_message ''third'']\<rparr>],
       writes = [\<lparr>wr_thread_id = ''t2'', wr_checkpoint_id = ''c2''\<rparr>],
       thread_metadata =
         [\<lparr>thread_id = ''t1'', title = Str ''First'', created_at = 5, updated_at = 6\<rparr>]\<rparr>,
      False)"
  by (simp add: delete_thread_def count_checkpoints_def select_first_def example_store_def)

lemma example_rename_t1:
  "rename_thread {} example_clock example_store ''t1'' ''Renamed'' =
     (example_store\<lparr>thread_metadata :=
        [\<lparr>thread_id = ''t1'', title = Str ''Renamed'', created_at = 5, updated_at = 100\<rparr>]\<rparr>,
      True)"
  by (simp add: rename_thread_def get_tuple_def select_first_def example_store_def
      example_clock_def)

section \<open>Listing the threads\<close>

text \<open>
  C5, as the code has it. \<open>get_thread_list\<close> returns at most one entry per thread id
  found by scanning the checkpoints, and no entry for any other id. A thread with a
  metadata row is listed with a stored row. A thread without one is listed with a
  transient title, the content of the first human message of its newest checkpoint, when
  that content is truthy (the function returns the list only and stores nothing). A
  thread without a metadata row whose newest checkpoint has no human message, or whose
  first human message has an empty content, is left out of the list.
\<close>

theorem get_thread_list_entries:
  fixes clock st
  defines "L \<equiv> get_thread_list clock st"
  shows "distinct (map thread_id L) \<and>
     set (map thread_id L) \<subseteq> set (scan_thread_ids st) \<and>
     (\<forall>t \<in> set (scan_thread_ids st).
        (select_first st t \<noteq> None \<longrightarrow>
           (\<exists>m \<in> set L. thread_id m = t \<and> m \<in> set (thread_metadata st))) \<and>
        (select_first st t = None \<and> truthy (derive_title st t) \<longrightarrow>
           (\<exists>k. \<lparr>thread_id = t, title = the (derive_title st t),
                  created_at = clock k, updated_at = clock (Suc k)\<rparr> \<in> set L)) \<and>
        (select_first st t = None \<and> \<not> truthy (derive_title st t) \<longrightarrow>
           (\<forall>e \<in> set L. thread_id e \<noteq> t)))"
proof -
  let ?ids = "scan_thread_ids st"
  let ?mm = "metadata_map st ?ids"
  have wf: "\<And>k m. ?mm k = Some m \<Longrightarrow> thread_id m = k"
    by (simp add: metadata_map_SomeD)
  have d: "distinct ?ids" by (simp add: scan_thread_ids_def)
  have L: "L = thread_list_loop clock 0 st ?mm ?ids"
    by (simp add: L_def get_thread_list_def)
  have 1: "distinct (map thread_id L)"
    unfolding L using wf d by (rule loop_distinct)
  have 2: "set (map thread_id L) \<subseteq> set ?ids"
    unfolding L using loop_ids [of ?mm, OF wf] by auto
  have 3: "\<exists>m \<in> set L. thread_id m = t \<and> m \<in> set (thread_metadata st)"
    if t: "t \<in> set ?ids" and s: "select_first st t \<noteq> None" for t
  proof -
    from s t have "?mm t \<noteq> None"
      by (simp add: metadata_map_None_iff select_first_None_iff)
    then obtain m where m: "?mm t = Some m" by blast
    from loop_stored [where mm = "?mm" and clock = clock and n = 0 and st = st, OF t m]
    have "m \<in> set L" by (simp add: L)
    with metadata_map_SomeD [OF m] show ?thesis by blast
  qed
  have 4: "\<exists>k. \<lparr>thread_id = t, title = the (derive_title st t),
                  created_at = clock k, updated_at = clock (Suc k)\<rparr> \<in> set L"
    if t: "t \<in> set ?ids" and s: "select_first st t = None" and tr: "truthy (derive_title st t)"
    for t
  proof -
    from s have n: "?mm t = None"
      by (simp add: metadata_map_None_iff select_first_None_iff)
    from tr obtain c where c: "derive_title st t = Some c" by (cases "derive_title st t") auto
    from loop_derived [where mm = "?mm" and clock = clock and n = 0 and st = st, OF t n c] tr c
    show ?thesis by (simp add: L)
  qed
  have 5: "\<forall>e \<in> set L. thread_id e \<noteq> t"
    if s: "select_first st t = None" and tr: "\<not> truthy (derive_title st t)" for t
  proof -
    from s have n: "?mm t = None"
      by (simp add: metadata_map_None_iff select_first_None_iff)
    have "thread_id e \<noteq> t" if "e \<in> set (thread_list_loop clock 0 st ?mm ?ids)" for e
      using wf n tr that by (rule loop_omitted [where mm = "?mm"])
    then show ?thesis by (simp add: L)
  qed
  from 1 2 3 4 5 show ?thesis by blast
qed

theorem get_thread_list_entries_witness:
  "''t1'' \<in> set (scan_thread_ids example_store) \<and>
   select_first example_store ''t1'' \<noteq> None \<and>
   \<lparr>thread_id = ''t1'', title = Str ''First'', created_at = 5, updated_at = 6\<rparr>
     \<in> set (get_thread_list example_clock example_store) \<and>
   ''t3'' \<in> set (scan_thread_ids example_store) \<and>
   select_first example_store ''t3'' = None \<and> truthy (derive_title example_store ''t3'') \<and>
   \<lparr>thread_id = ''t3'', title = Str ''third'', created_at = example_clock 0,
     updated_at = example_clock 1\<rparr> \<in> set (get_thread_list example_clock example_store) \<and>
   ''t2'' \<in> set (scan_thread_ids example_store) \<and>
   select_first example_store ''t2'' = None \<and> \<not> truthy (derive_title example_store ''t2'') \<and>
   ''t2'' \<notin> set (map thread_id (get_thread_list example_clock example_store)) \<and>
   distinct (map thread_id (get_thread_list example_clock example_store))"
  using get_thread_list_entries [of example_clock example_store]
  by (simp add: example_ids example_titles example_select example_list example_clock_def)

text \<open>
  C5 as stated fails: thread \<open>t2\<close> of the example store has a checkpoint, no metadata
  row and no human message, and the list holds no entry for it.
\<close>

theorem threads_without_human_message_are_omitted:
  "scan_thread_ids example_store = [''t2'', ''t1'', ''t3''] \<and>
   select_first example_store ''t2'' = None \<and>
   derive_title example_store ''t2'' = None \<and>
   map thread_id (get_thread_list example_clock example_store) = [''t1'', ''t3'']"
  by (simp add: example_ids example_titles example_select example_list)

section \<open>Deleting a thread\<close>

text \<open>
  C4. \<open>delete_thread\<close> returns \<open>False\<close> and leaves the store as it is when the thread
  has no checkpoints. Otherwise, when no database operation raises, it returns \<open>True\<close>.
  Whenever it returns \<open>True\<close> it has removed every checkpoint row and every writes row
  of the thread and the metadata row if there was one; the thread is no longer in the
  thread list, and deleting it again returns \<open>False\<close>.
\<close>

theorem delete_thread_removes_thread:
  fixes raising st tid
  defines "st' \<equiv> fst (delete_thread raising st tid)"
  shows "(count_checkpoints st tid = 0 \<longrightarrow> delete_thread raising st tid = (st, False)) \<and>
     (count_checkpoints st tid \<noteq> 0 \<and> raising = {} \<longrightarrow>
        snd (delete_thread raising st tid) = True) \<and>
     (snd (delete_thread raising st tid) = True \<longrightarrow>
        checkpoints st' = filter (\<lambda>r. cp_thread_id r \<noteq> tid) (checkpoints st) \<and>
        writes st' = filter (\<lambda>w. wr_thread_id w \<noteq> tid) (writes st) \<and>
        thread_metadata st' = filter (\<lambda>m. thread_id m \<noteq> tid) (thread_metadata st) \<and>
        count_checkpoints st' tid = 0 \<and> select_first st' tid = None \<and>
        (\<forall>e \<in> set (get_thread_list clock st'). thread_id e \<noteq> tid) \<and>
        (\<forall>raising'. delete_thread raising' st' tid = (st', False)))"
proof (intro conjI impI)
  assume "count_checkpoints st tid = 0"
  then show "delete_thread raising st tid = (st, False)" by (rule delete_thread_absent)
next
  assume "count_checkpoints st tid \<noteq> 0 \<and> raising = {}"
  then show "snd (delete_thread raising st tid) = True"
    by (simp add: delete_thread_no_faults)
next
  assume "snd (delete_thread raising st tid) = True"
  then have eq: "delete_thread raising st tid = (st', True)"
    by (simp add: st'_def prod_eq_iff)
  note rows = delete_thread_True [OF eq]
  from rows show "checkpoints st' = filter (\<lambda>r. cp_thread_id r \<noteq> tid) (checkpoints st)"
    and "writes st' = filter (\<lambda>w. wr_thread_id w \<noteq> tid) (writes st)"
    and "thread_metadata st' = filter (\<lambda>m. thread_id m \<noteq> tid) (thread_metadata st)"
    by simp_all
  from rows show gone: "count_checkpoints st' tid = 0" by (simp add: count_after_filter)
  from rows show "select_first st' tid = None" by (simp add: select_first_None_iff)
  show "\<forall>e \<in> set (get_thread_list clock st'). thread_id e \<noteq> tid"
  proof
    fix e
    assume "e \<in> set (get_thread_list clock st')"
    then have "count_checkpoints st' (thread_id e) \<noteq> 0"
      using get_thread_list_ids scan_thread_ids_iff by blast
    with gone show "thread_id e \<noteq> tid" by auto
  qed
  from gone show "\<forall>raising'. delete_thread raising' st' tid = (st', False)"
    by (simp add: delete_thread_absent)
qed

theorem delete_thread_removes_thread_witness:
  "count_checkpoints example_store ''t9'' = 0 \<and>
   delete_thread {} example_store ''t9'' = (example_store, False) \<and>
   count_checkpoints example_store ''t1'' \<noteq> 0 \<and>
   snd (delete_thread {} example_store ''t1'') = True \<and>
   map cp_thread_id (checkpoints (fst (delete_thread {} example_store ''t1''))) = [''t2'', ''t3''] \<and>
   map wr_thread_id (writes (fst (delete_thread {} example_store ''t1''))) = [''t2''] \<and>
   thread_metadata (fst (delete_thread {} example_store ''t1'')) = [] \<and>
   map thread_id (get_thread_list example_clock (fst (delete_thread {} example_store ''t1'')))
     = [''t3''] \<and>
   snd (delete_thread {} (fst (delete_thread {} example_store ''t1'')) ''t1'') = False"
proof -
  note absent = delete_thread_removes_thread [of example_store "''t9''" "{}" example_clock]
  note present = delete_thread_removes_thread [of example_store "''t1''" "{}" example_clock]
  have c9: "count_checkpoints example_store ''t9'' = 0"
    and c1: "count_checkpoints example_store ''t1'' \<noteq> 0"
    by (simp_all add: example_counts)
  from absent c9 have d9: "delete_thread {} example_store ''t9'' = (example_store, False)"
    by blast
  from present c1 have ok: "snd (delete_thread {} example_store ''t1'') = True"
    by blast
  with present
  have again: "snd (delete_thread {} (fst (delete_thread {} example_store ''t1'')) ''t1'') = False"
    by simp
  have rows: "map cp_thread_id (checkpoints (fst (delete_thread {} example_store ''t1'')))
       = [''t2'', ''t3'']"
    "map wr_thread_id (writes (fst (delete_thread {} example_store ''t1''))) = [''t2'']"
    "thread_metadata (fst (delete_thread {} example_store ''t1'')) = []"
    by (simp_all add: example_delete)
  have l: "map thread_id (get_thread_list example_clock (fst (delete_thread {} example_store ''t1'')))
     = [''t3'']"
    by (simp add: example_delete get_thread_list_def scan_thread_ids_def metadata_map_def
        derive_title_def get_tuple_def human_message_def ai_message_def)
  from c9 c1 d9 ok again rows l show ?thesis by simp
qed

text \<open>
  C10. When the thread has checkpoints, the operations on the checkpointer's tables
  succeed and the select or the commit on the metadata table raises, \<open>delete_thread\<close>
  returns \<open>False\<close> although the checkpoints of the thread are gone from the store: the
  store has changed, and the metadata row is still there. The example store with a
  raising metadata commit is such an execution.
\<close>

theorem delete_thread_not_atomic:
  assumes "count_checkpoints st tid \<noteq> 0"
    and "SelectCount \<notin> raising" and "DeleteCheckpoints \<notin> raising"
    and "DeleteWrites \<notin> raising" and "CommitCheckpoints \<notin> raising"
    and "SelectMetadata \<in> raising \<or> (CommitMetadata \<in> raising \<and> select_first st tid \<noteq> None)"
  shows "snd (delete_thread raising st tid) = False \<and>
     count_checkpoints (fst (delete_thread raising st tid)) tid = 0 \<and>
     checkpoints (fst (delete_thread raising st tid)) \<noteq> checkpoints st \<and>
     thread_metadata (fst (delete_thread raising st tid)) = thread_metadata st"
proof -
  let ?committed = "st\<lparr>checkpoints := filter (\<lambda>r. cp_thread_id r \<noteq> tid) (checkpoints st),
                      writes := filter (\<lambda>w. wr_thread_id w \<noteq> tid) (writes st)\<rparr>"
  have sel: "select_first ?committed tid = select_first st tid"
    by (simp add: select_first_def)
  from assms have "delete_thread raising st tid = (?committed, False)"
    by (auto simp: delete_thread_def Let_def sel)
  moreover from assms(1) have "filter (\<lambda>r. cp_thread_id r \<noteq> tid) (checkpoints st) \<noteq> checkpoints st"
    using filter_shrinks [of "\<lambda>r. cp_thread_id r = tid" "checkpoints st"]
    by (simp add: count_checkpoints_def)
  ultimately show ?thesis by (simp add: count_checkpoints_def)
qed

theorem delete_thread_not_atomic_witness:
  "count_checkpoints example_store ''t1'' \<noteq> 0 \<and>
   select_first example_store ''t1'' \<noteq> None \<and>
   snd (delete_thread {CommitMetadata} example_store ''t1'') = False \<and>
   count_checkpoints (fst (delete_thread {CommitMetadata} example_store ''t1'')) ''t1'' = 0 \<and>
   checkpoints (fst (delete_thread {CommitMetadata} example_store ''t1''))
     \<noteq> checkpoints example_store \<and>
   thread_metadata (fst (delete_thread {CommitMetadata} example_store ''t1''))
     = thread_metadata example_store"
proof -
  have c: "count_checkpoints example_store ''t1'' \<noteq> 0" by (simp add: example_counts)
  have s: "select_first example_store ''t1'' \<noteq> None" by (simp add: example_select)
  from delete_thread_not_atomic [of example_store "''t1''" "{CommitMetadata}"] c s
  show ?thesis by simp
qed

section \<open>Renaming a thread\<close>

text \<open>
  C6. \<open>rename_thread\<close> returns \<open>False\<close> and leaves the store as it is when the thread
  has no checkpoints. Otherwise, when no database operation raises, it returns \<open>True\<close>.
  Whenever it returns \<open>True\<close>: a thread without a metadata row has got a new row with
  the title and both times read from the clock during the call; an existing row has got
  the title and a new \<open>updated_at\<close>; the rows of other threads and the checkpointer's
  tables are as before; and after renaming again with the same title the stored title is
  still that title.
\<close>

theorem rename_thread_upserts:
  fixes raising clock st tid new_title
  defines "st' \<equiv> fst (rename_thread raising clock st tid new_title)"
  shows "(count_checkpoints st tid = 0 \<longrightarrow>
        rename_thread raising clock st tid new_title = (st, False)) \<and>
     (count_checkpoints st tid \<noteq> 0 \<and> raising = {} \<longrightarrow>
        snd (rename_thread raising clock st tid new_title) = True) \<and>
     (snd (rename_thread raising clock st tid new_title) = True \<longrightarrow>
        (select_first st tid = None \<longrightarrow>
           select_first st' tid =
             Some \<lparr>thread_id = tid, title = Str new_title,
                   created_at = clock 0, updated_at = clock 1\<rparr>) \<and>
        (\<forall>m. select_first st tid = Some m \<longrightarrow>
           select_first st' tid = Some (m\<lparr>title := Str new_title, updated_at := clock 0\<rparr>)) \<and>
        (\<forall>k. k \<noteq> tid \<longrightarrow> select_first st' k = select_first st k) \<and>
        checkpoints st' = checkpoints st \<and> writes st' = writes st \<and>
        (\<forall>raising2 clock2. \<exists>m.
           select_first (fst (rename_thread raising2 clock2 st' tid new_title)) tid = Some m \<and>
           title m = Str new_title))"
proof (intro conjI impI allI)
  assume "count_checkpoints st tid = 0"
  then show "rename_thread raising clock st tid new_title = (st, False)"
    by (rule rename_thread_absent)
next
  assume "count_checkpoints st tid \<noteq> 0 \<and> raising = {}"
  then show "snd (rename_thread raising clock st tid new_title) = True"
    by (simp add: rename_thread_no_faults)
next
  assume "snd (rename_thread raising clock st tid new_title) = True"
  then have eq: "rename_thread raising clock st tid new_title = (st', True)"
    by (simp add: st'_def prod_eq_iff)
  note sel = rename_thread_select [OF eq]
  {
    assume "select_first st tid = None"
    with sel [of tid] show "select_first st' tid =
             Some \<lparr>thread_id = tid, title = Str new_title,
                   created_at = clock 0, updated_at = clock 1\<rparr>" by simp
  }
  {
    fix m
    assume "select_first st tid = Some m"
    with sel [of tid]
    show "select_first st' tid = Some (m\<lparr>title := Str new_title, updated_at := clock 0\<rparr>)"
      by simp
  }
  {
    fix k
    assume "k \<noteq> tid"
    with sel [of k] show "select_first st' k = select_first st k" by simp
  }
  from rename_thread_True [OF eq] show "checkpoints st' = checkpoints st"
    and "writes st' = writes st" by simp_all
  {
    fix raising2 clock2
    from sel [of tid] obtain m1 where m1: "select_first st' tid = Some m1" "title m1 = Str new_title"
      by (cases "select_first st tid") auto
    show "\<exists>m. select_first (fst (rename_thread raising2 clock2 st' tid new_title)) tid = Some m \<and>
           title m = Str new_title"
    proof (cases "snd (rename_thread raising2 clock2 st' tid new_title)")
      case True
      then have "rename_thread raising2 clock2 st' tid new_title =
          (fst (rename_thread raising2 clock2 st' tid new_title), True)"
        by (simp add: prod_eq_iff)
      from rename_thread_select [OF this, of tid] m1 show ?thesis by simp
    next
      case False
      then have "fst (rename_thread raising2 clock2 st' tid new_title) = st'"
        by (auto simp: rename_thread_def split: option.splits if_splits)
      with m1 show ?thesis by simp
    qed
  }
qed

theorem rename_thread_upserts_witness:
  "count_checkpoints example_store ''t9'' = 0 \<and>
   rename_thread {} example_clock example_store ''t9'' ''Renamed'' = (example_store, False) \<and>
   count_checkpoints example_store ''t1'' \<noteq> 0 \<and>
   snd (rename_thread {} example_clock example_store ''t1'' ''Renamed'') = True \<and>
   select_first example_store ''t1'' =
     Some \<lparr>thread_id = ''t1'', title = Str ''First'', created_at = 5, updated_at = 6\<rparr> \<and>
   select_first (fst (rename_thread {} example_clock example_store ''t1'' ''Renamed'')) ''t1'' =
     Some \<lparr>thread_id = ''t1'', title = Str ''Renamed'', created_at = 5, updated_at = 100\<rparr> \<and>
   select_first example_store ''t3'' = None \<and>
   snd (rename_thread {} example_clock example_store ''t3'' ''Renamed'') = True \<and>
   select_first (fst (rename_thread {} example_clock example_store ''t3'' ''Renamed'')) ''t3'' =
     Some \<lparr>thread_id = ''t3'', title = Str ''Renamed'', created_at = 100, updated_at = 101\<rparr> \<and>
   select_first (fst (rename_thread {} example_clock example_store ''t3'' ''Renamed'')) ''t1'' =
     select_first example_store ''t1'' \<and>
   (\<exists>m. select_first (fst (rename_thread {} example_clock
           (fst (rename_thread {} example_clock example_store ''t1'' ''Renamed''))
           ''t1'' ''Renamed'')) ''t1'' = Some m \<and> title m = Str ''Renamed'')"
proof -
  note absent = rename_thread_upserts [of example_store "''t9''" "{}" example_clock "''Renamed''"]
  note update = rename_thread_upserts [of example_store "''t1''" "{}" example_clock "''Renamed''"]
  note insert = rename_thread_upserts [of example_store "''t3''" "{}" example_clock "''Renamed''"]
  have c9: "count_checkpoints example_store ''t9'' = 0"
    and c1: "count_checkpoints example_store ''t1'' \<noteq> 0"
    and c3: "count_checkpoints example_store ''t3'' \<noteq> 0"
    by (simp_all add: count_checkpoints_def example_store_def)
  have s1: "select_first example_store ''t1'' =
     Some \<lparr>thread_id = ''t1'', title = Str ''First'', created_at = 5, updated_at = 6\<rparr>"
    and s3: "select_first example_store ''t3'' = None"
    by (simp_all add: example_select)
  from absent c9
  have r9: "rename_thread {} example_clock example_store ''t9'' ''Renamed'' = (example_store, False)"
    by blast
  from update c1
  have ok1: "snd (rename_thread {} example_clock example_store ''t1'' ''Renamed'') = True"
    by blast
  from insert c3
  have ok3: "snd (rename_thread {} example_clock example_store ''t3'' ''Renamed'') = True"
    by blast
  from update ok1 s1
  have u1: "select_first (fst (rename_thread {} example_clock example_store ''t1'' ''Renamed'')) ''t1'' =
     Some \<lparr>thread_id = ''t1'', title = Str ''Renamed'', created_at = 5, updated_at = 100\<rparr>"
    by (simp add: example_clock_def)
  from insert ok3 s3
  have u3: "select_first (fst (rename_thread {} example_clock example_store ''t3'' ''Renamed'')) ''t3'' =
     Some \<lparr>thread_id = ''t3'', title = Str ''Renamed'', created_at = 100, updated_at = 101\<rparr>"
    by (simp add: example_clock_def)
  from insert ok3
  have f: "select_first (fst (rename_thread {} example_clock example_store ''t3'' ''Renamed'')) ''t1'' =
     select_first example_store ''t1''"
    by simp
  from update ok1
  have i: "\<exists>m. select_first (fst (rename_thread {} example_clock
           (fst (rename_thread {} example_clock example_store ''t1'' ''Renamed''))
           ''t1'' ''Renamed'')) ''t1'' = Some m \<and> title m = Str ''Renamed''"
    by blast
  from c9 r9 c1 ok1 s1 u1 s3 ok3 u3 f i show ?thesis by blast
qed

text \<open>
  C9. When \<open>rename_thread\<close> succeeds on a thread that has a metadata row, the row it
  leaves has the thread id and the \<open>created_at\<close> of the row before; only the title and
  \<open>updated_at\<close> are new.
\<close>

theorem rename_thread_keeps_identity:
  assumes "select_first st tid = Some m"
    and "rename_thread raising clock st tid new_title = (st', True)"
  shows "\<exists>m'. select_first st' tid = Some m' \<and>
     thread_id m' = thread_id m \<and> created_at m' = created_at m \<and>
     title m' = Str new_title \<and> updated_at m' = clock 0"
  using rename_thread_select [OF assms(2), of tid] assms(1) by simp

theorem rename_thread_keeps_identity_witness:
  "select_first example_store ''t1'' =
     Some \<lparr>thread_id = ''t1'', title = Str ''First'', created_at = 5, updated_at = 6\<rparr> \<and>
   snd (rename_thread {} example_clock example_store ''t1'' ''Renamed'') = True \<and>
   (\<exists>m'. select_first (fst (rename_thread {} example_clock example_store ''t1'' ''Renamed''))
            ''t1'' = Some m' \<and>
      thread_id m' = ''t1'' \<and> created_at m' = 5 \<and>
      title m' = Str ''Renamed'' \<and> updated_at m' = example_clock 0)"
proof -
  have s1: "select_first example_store ''t1'' =
     Some \<lparr>thread_id = ''t1'', title = Str ''First'', created_at = 5, updated_at = 6\<rparr>"
    by (simp add: example_select)
  have r: "rename_thread {} example_clock example_store ''t1'' ''Renamed'' =
     (fst (rename_thread {} example_clock example_store ''t1'' ''Renamed''), True)"
    by (simp add: example_rename_t1)
  from rename_thread_keeps_identity [OF s1 r] s1 r show ?thesis
    by (simp add: example_rename_t1)
qed

end
